theory Spec2Isabelle
  imports Main "HOL-Library.Multiset"
begin

section \<open>Raster images as the script sees them\<close>

text \<open>
  The script \<^verbatim>\<open>recortar_spritesheet.py\<close> is written against the Pillow imaging
  library. An image has a mode (the channel format, such as \<^verbatim>\<open>"RGBA"\<close>), a size and
  rows of pixels. A pixel is the tuple of its band values, so an RGBA pixel has four
  entries and the last one is alpha.
\<close>

type_synonym pixel = "int list"

record image =
  mode :: string
  xsize :: nat
  ysize :: nat
  data :: "pixel list list"

text \<open>A valid image stores \<open>ysize\<close> rows of \<open>xsize\<close> pixels each.\<close>

definition wf_image :: "image \<Rightarrow> bool" where
  "wf_image im \<longleftrightarrow>
     length (data im) = ysize im \<and> list_all (\<lambda>r. length r = xsize im) (data im)"

text \<open>Reading one pixel; there is none outside the image.\<close>

definition pixel_at :: "image \<Rightarrow> int \<times> int \<Rightarrow> pixel option" where
  "pixel_at im xy =
     (case xy of (x, y) \<Rightarrow>
        if 0 \<le> x \<and> x < int (xsize im) \<and> 0 \<le> y \<and> y < int (ysize im)
        then Some (data im ! nat y ! nat x) else None)"

text \<open>The fill colour \<^verbatim>\<open>(0, 0, 0, 0)\<close> of the script, and the alpha band of an RGBA pixel.\<close>

definition transparent :: pixel where
  "transparent = [0, 0, 0, 0]"

definition alpha :: "pixel \<Rightarrow> int" where
  "alpha p = p ! 3"

subsection \<open>The library calls the script makes\<close>

text \<open>\<^verbatim>\<open>Image.new(mode, (w, h), color)\<close>: a canvas filled with one colour.\<close>

definition Image_new :: "string \<Rightarrow> nat \<times> nat \<Rightarrow> pixel \<Rightarrow> image" where
  "Image_new m sz color =
     (case sz of (w, h) \<Rightarrow>
        \<lparr>mode = m, xsize = w, ysize = h, data = replicate h (replicate w color)\<rparr>)"

text \<open>
  Number of bands of a mode, for the zero pixel that \<^verbatim>\<open>crop\<close> puts where its box
  leaves the image.
\<close>

definition bands :: "string \<Rightarrow> nat" where
  "bands m =
     (if m \<in> set [''1'', ''L'', ''P'', ''I'', ''F'', ''I;16'', ''I;16L'', ''I;16B'', ''I;16N''] then 1
      else if m \<in> set [''LA'', ''PA'', ''La''] then 2
      else if m \<in> set [''RGB'', ''YCbCr'', ''LAB'', ''HSV''] then 3
      else 4)"

text \<open>
  \<^verbatim>\<open>im.crop((left, upper, right, lower))\<close>: a new image of the box's size and the
  image's mode; it holds the image's pixels where the box lies inside the image and
  zeros elsewhere.
\<close>

definition crop :: "image \<Rightarrow> int \<times> int \<times> int \<times> int \<Rightarrow> image" where
  "crop im box =
     (case box of (left, upper, right, lower) \<Rightarrow>
        \<lparr>mode = mode im, xsize = nat (right - left), ysize = nat (lower - upper),
         data =
           map (\<lambda>y. map (\<lambda>x.
                  (case pixel_at im (left + int x, upper + int y) of
                     Some p \<Rightarrow> p
                   | None \<Rightarrow> replicate (bands (mode im)) 0))
                [0..<nat (right - left)])
             [0..<nat (lower - upper)]\<rparr>)"

text \<open>
  \<^verbatim>\<open>im.convert(mode)\<close> maps every pixel on its own when the target is RGBA. What
  the map is depends on the source mode (and on the palette of a palette image), which
  are the same for all frames of one sheet, so the map \<open>to_rgba\<close> is a parameter.
\<close>

definition convert :: "(pixel \<Rightarrow> pixel) \<Rightarrow> string \<Rightarrow> image \<Rightarrow> image" where
  "convert to_rgba m im =
     (if mode im = m then im else im\<lparr>mode := m, data := map (map to_rgba) (data im)\<rparr>)"

text \<open>
  The copy loop under \<^verbatim>\<open>paste\<close>: the box is clipped against the destination on all
  four sides, nothing is copied when nothing is left of it, and the destination's pixels
  inside the clipped box are overwritten (all bands, alpha included).
\<close>

definition imaging_paste :: "image \<Rightarrow> image \<Rightarrow> int \<times> int \<Rightarrow> image" where
  "imaging_paste imOut imIn pos =
     (case pos of (dx0, dy0) \<Rightarrow>
        let xs = int (xsize imIn); ys = int (ysize imIn);
            sx0 = (if dx0 < 0 then - dx0 else 0);
            xs1 = (if dx0 < 0 then xs + dx0 else xs);
            dx = (if dx0 < 0 then 0 else dx0);
            xs2 = (if dx + xs1 > int (xsize imOut) then int (xsize imOut) - dx else xs1);
            sy0 = (if dy0 < 0 then - dy0 else 0);
            ys1 = (if dy0 < 0 then ys + dy0 else ys);
            dy = (if dy0 < 0 then 0 else dy0);
            ys2 = (if dy + ys1 > int (ysize imOut) then int (ysize imOut) - dy else ys1)
        in if xs2 \<le> 0 \<or> ys2 \<le> 0 then imOut
           else imOut\<lparr>data :=
                  map (\<lambda>y. map (\<lambda>x.
                         if dx \<le> int x \<and> int x < dx + xs2 \<and> dy \<le> int y \<and> int y < dy + ys2
                         then data imIn ! nat (sy0 + (int y - dy)) ! nat (sx0 + (int x - dx))
                         else data imOut ! y ! x)
                       [0..<xsize imOut])
                    [0..<ysize imOut]\<rparr>)"

text \<open>
  \<^verbatim>\<open>self.paste(im, (x, y))\<close> with no mask: the box is the size of \<open>im\<close> at that
  corner, and \<open>im\<close> is converted to the mode of \<open>self\<close> when the modes differ.
\<close>

definition paste :: "(pixel \<Rightarrow> pixel) \<Rightarrow> image \<Rightarrow> image \<Rightarrow> int \<times> int \<Rightarrow> image" where
  "paste to_rgba self im pos =
     imaging_paste self
       (if mode self \<noteq> mode im then convert to_rgba (mode self) im else im) pos"

section \<open>The script\<close>

text \<open>
  The paths are the constants of the script. The frame size and the offset are
  constants there too (\<open>146\<close>, \<open>64\<close> and \<open>5\<close>); they are arguments here and
  \<open>recortar_spritesheet\<close> below fixes them again.
\<close>

definition input_path :: string where
  "input_path = ''skeletonAttack-Sheet146x64.png''"

definition output_path :: string where
  "output_path = ''skeletonAttack-cropped.png''"

datatype error =
  FileNotFoundError | UnidentifiedImageError | ZeroDivisionError | OSError
  | OverflowError | ValueError

text \<open>Integer division \<^verbatim>\<open>a // b\<close> on sizes; Python raises when \<open>b\<close> is zero.\<close>

definition floordiv :: "nat \<Rightarrow> nat \<Rightarrow> error + nat" where
  "floordiv a b = (if b = 0 then Inl ZeroDivisionError else Inr (a div b))"

text \<open>The body of the two loops, lines 23 to 32, for the cell \<open>(row, col)\<close>.\<close>

definition process_cell ::
  "(pixel \<Rightarrow> pixel) \<Rightarrow> nat \<Rightarrow> nat \<Rightarrow> int \<Rightarrow> image \<Rightarrow> nat \<times> nat \<Rightarrow> image \<Rightarrow> image" where
  "process_cell to_rgba frame_width frame_height y_offset spritesheet cell new_sheet =
     (case cell of (row, col) \<Rightarrow>
        let left = col * frame_width;
            top = row * frame_height;
            frame = crop spritesheet
                      (int left, int top, int (left + frame_width), int (top + frame_height));
            new_frame = Image_new ''RGBA'' (frame_width, frame_height) transparent;
            new_frame = paste to_rgba new_frame frame (0, y_offset)
        in paste to_rgba new_sheet new_frame (int left, int top))"

text \<open>The loops of lines 21 and 22: rows outside, columns inside.\<close>

definition grid_loop ::
  "(pixel \<Rightarrow> pixel) \<Rightarrow> nat \<Rightarrow> nat \<Rightarrow> int \<Rightarrow> image \<Rightarrow> nat \<Rightarrow> nat \<Rightarrow> image \<Rightarrow> image" where
  "grid_loop to_rgba frame_width frame_height y_offset spritesheet rows cols new_sheet =
     fold (\<lambda>row sheet.
             fold (\<lambda>col. process_cell to_rgba frame_width frame_height y_offset spritesheet
                            (row, col))
               [0..<cols] sheet)
       [0..<rows] new_sheet"

text \<open>
  The cells in the order the two loops visit them, and the loop body run over any list
  of cells, to compare other orders with that one.
\<close>

definition grid_cells :: "nat \<Rightarrow> nat \<Rightarrow> (nat \<times> nat) list" where
  "grid_cells rows cols = concat (map (\<lambda>row. map (\<lambda>col. (row, col)) [0..<cols]) [0..<rows])"

definition process_cells ::
  "(pixel \<Rightarrow> pixel) \<Rightarrow> nat \<Rightarrow> nat \<Rightarrow> int \<Rightarrow> image \<Rightarrow> (nat \<times> nat) list \<Rightarrow> image \<Rightarrow> image" where
  "process_cells to_rgba frame_width frame_height y_offset spritesheet cells new_sheet =
     fold (process_cell to_rgba frame_width frame_height y_offset spritesheet) cells new_sheet"

text \<open>Lines 13 to 32: from the opened sheet to the canvas that is saved.\<close>

definition realign ::
  "(pixel \<Rightarrow> pixel) \<Rightarrow> nat \<Rightarrow> nat \<Rightarrow> int \<Rightarrow> image \<Rightarrow> error + image" where
  "realign to_rgba frame_width frame_height y_offset spritesheet =
     (let sheet_width = xsize spritesheet; sheet_height = ysize spritesheet in
      case floordiv sheet_width frame_width of
        Inl e \<Rightarrow> Inl e
      | Inr cols \<Rightarrow>
          (case floordiv sheet_height frame_height of
             Inl e \<Rightarrow> Inl e
           | Inr rows \<Rightarrow>
               Inr (grid_loop to_rgba frame_width frame_height y_offset spritesheet rows cols
                      (Image_new ''RGBA'' (sheet_width, sheet_height) transparent))))"

subsection \<open>Files\<close>

text \<open>
  What a run can see of the outside: the files by path, which paths can be written, what
  happens at a path that cannot, and the console. A file is a raster image that decodes,
  a file whose header reads (mode and size) but whose pixel data does not load, or
  something that is no image at all. A write that fails raises its error and either
  leaves the path as it was or leaves some other content there (a file cut short).
\<close>

datatype file_content = Raster image | Truncated string nat nat | Other

datatype leftover = Unchanged | Leaves file_content

record world =
  files :: "string \<Rightarrow> file_content option"
  writable :: "string \<Rightarrow> bool"
  write_failure :: "string \<Rightarrow> error \<times> leftover"
  console :: "string list"

text \<open>
  Opening and saving in the simple case first: the file is decoded when it is opened, and
  a path that cannot be written refuses the write and keeps what it has.
\<close>

definition Image_open :: "world \<Rightarrow> string \<Rightarrow> error + image" where
  "Image_open w path =
     (case files w path of
        None \<Rightarrow> Inl FileNotFoundError
      | Some Other \<Rightarrow> Inl UnidentifiedImageError
      | Some (Truncated m w h) \<Rightarrow> Inl OSError
      | Some (Raster im) \<Rightarrow> Inr im)"

definition save :: "world \<Rightarrow> image \<Rightarrow> string \<Rightarrow> error + world" where
  "save w im path =
     (if writable w path then Inr (w\<lparr>files := (files w)(path \<mapsto> Raster im)\<rparr>)
      else Inl OSError)"

text \<open>
  The script over these: lines 12 to 35 with every box within the range of the library's
  integers. An exception ends the run, so each failing step returns its error together
  with the world as it is at that moment. The script with every failure of its library
  calls is \<open>script\<close> below.
\<close>

definition run ::
  "(pixel \<Rightarrow> pixel) \<Rightarrow> nat \<Rightarrow> nat \<Rightarrow> int \<Rightarrow> world \<Rightarrow> (error + unit) \<times> world" where
  "run to_rgba frame_width frame_height y_offset w =
     (case Image_open w input_path of
        Inl e \<Rightarrow> (Inl e, w)
      | Inr spritesheet \<Rightarrow>
          (case realign to_rgba frame_width frame_height y_offset spritesheet of
             Inl e \<Rightarrow> (Inl e, w)
           | Inr new_sheet \<Rightarrow>
               (case save w new_sheet output_path of
                  Inl e \<Rightarrow> (Inl e, w)
                | Inr w' \<Rightarrow>
                    (Inr (),
                     w'\<lparr>console := console w' @
                          [''Spritesheet corregido con offset guardado en: '' @ output_path]\<rparr>))))"

definition recortar_spritesheet :: "(pixel \<Rightarrow> pixel) \<Rightarrow> world \<Rightarrow> (error + unit) \<times> world" where
  "recortar_spritesheet to_rgba w = run to_rgba 146 64 5 w"

subsection \<open>The failures of the library calls\<close>

text \<open>
  Pillow hands the box of a \<^verbatim>\<open>crop\<close> or a \<^verbatim>\<open>paste\<close> to its C core as four C
  ints; a coordinate outside their range raises \<^verbatim>\<open>OverflowError\<close>.
\<close>

definition c_int :: "int \<Rightarrow> bool" where
  "c_int v \<longleftrightarrow> - 2147483648 \<le> v \<and> v \<le> 2147483647"

definition c_box :: "int \<times> int \<times> int \<times> int \<Rightarrow> bool" where
  "c_box box = (case box of (a, b, c, d) \<Rightarrow> c_int a \<and> c_int b \<and> c_int c \<and> c_int d)"

text \<open>
  \<^verbatim>\<open>Image.open\<close> reads the header only. The pixel data is decoded by the first call
  that needs it, here the first \<^verbatim>\<open>crop\<close>, and a file that is cut short fails there.
\<close>

datatype lazy_image = Loadable image | Unloadable string nat nat

definition lazy_size :: "lazy_image \<Rightarrow> nat \<times> nat" where
  "lazy_size src =
     (case src of Loadable im \<Rightarrow> (xsize im, ysize im) | Unloadable m w h \<Rightarrow> (w, h))"

definition load :: "lazy_image \<Rightarrow> error + image" where
  "load src = (case src of Loadable im \<Rightarrow> Inr im | Unloadable m w h \<Rightarrow> Inl OSError)"

definition Image_open_lazy :: "world \<Rightarrow> string \<Rightarrow> error + lazy_image" where
  "Image_open_lazy w path =
     (case files w path of
        None \<Rightarrow> Inl FileNotFoundError
      | Some Other \<Rightarrow> Inl UnidentifiedImageError
      | Some (Truncated m w h) \<Rightarrow> Inr (Unloadable m w h)
      | Some (Raster im) \<Rightarrow> Inr (Loadable im))"

text \<open>
  \<^verbatim>\<open>crop\<close> checks the order of the box's sides, loads the image, and passes the box
  on; \<^verbatim>\<open>paste\<close> builds its box from the corner and the size of the pasted image and
  passes it on.
\<close>

definition crop_checked :: "lazy_image \<Rightarrow> int \<times> int \<times> int \<times> int \<Rightarrow> error + image" where
  "crop_checked src box =
     (case box of (left, upper, right, lower) \<Rightarrow>
        if right < left \<or> lower < upper then Inl ValueError
        else (case load src of
                Inl e \<Rightarrow> Inl e
              | Inr im \<Rightarrow> if c_box box then Inr (crop im box) else Inl OverflowError))"

definition paste_checked ::
  "(pixel \<Rightarrow> pixel) \<Rightarrow> image \<Rightarrow> image \<Rightarrow> int \<times> int \<Rightarrow> error + image" where
  "paste_checked to_rgba self im pos =
     (case pos of (x, y) \<Rightarrow>
        if c_box (x, y, x + int (xsize im), y + int (ysize im))
        then Inr (paste to_rgba self im pos) else Inl OverflowError)"

text \<open>
  \<^verbatim>\<open>save\<close> writes the file, or raises what the path raises and leaves what the
  failed write leaves.
\<close>

definition save_checked :: "world \<Rightarrow> image \<Rightarrow> string \<Rightarrow> (error + unit) \<times> world" where
  "save_checked w im path =
     (if writable w path then (Inr (), w\<lparr>files := (files w)(path \<mapsto> Raster im)\<rparr>)
      else (case write_failure w path of
              (e, Unchanged) \<Rightarrow> (Inl e, w)
            | (e, Leaves c) \<Rightarrow> (Inl e, w\<lparr>files := (files w)(path \<mapsto> c)\<rparr>)))"

text \<open>A loop whose body may raise stops at the first error.\<close>

fun fold_result :: "('a \<Rightarrow> 's \<Rightarrow> error + 's) \<Rightarrow> 'a list \<Rightarrow> 's \<Rightarrow> error + 's" where
  "fold_result f [] s = Inr s"
| "fold_result f (x # xs) s =
     (case f x s of Inl e \<Rightarrow> Inl e | Inr s' \<Rightarrow> fold_result f xs s')"

text \<open>Lines 23 to 32 again, each call with its failures.\<close>

definition process_cell_checked ::
  "(pixel \<Rightarrow> pixel) \<Rightarrow> nat \<Rightarrow> nat \<Rightarrow> int \<Rightarrow> lazy_image \<Rightarrow> nat \<times> nat \<Rightarrow> image \<Rightarrow> error + image" where
  "process_cell_checked to_rgba frame_width frame_height y_offset spritesheet cell new_sheet =
     (case cell of (row, col) \<Rightarrow>
        let left = col * frame_width;
            top = row * frame_height
        in (case crop_checked spritesheet
                   (int left, int top, int (left + frame_width), int (top + frame_height)) of
              Inl e \<Rightarrow> Inl e
            | Inr frame \<Rightarrow>
                (case paste_checked to_rgba
                        (Image_new ''RGBA'' (frame_width, frame_height) transparent)
                        frame (0, y_offset) of
                   Inl e \<Rightarrow> Inl e
                 | Inr new_frame \<Rightarrow>
                     paste_checked to_rgba new_sheet new_frame (int left, int top))))"

definition grid_loop_checked ::
  "(pixel \<Rightarrow> pixel) \<Rightarrow> nat \<Rightarrow> nat \<Rightarrow> int \<Rightarrow> lazy_image \<Rightarrow> nat \<Rightarrow> nat \<Rightarrow> image \<Rightarrow> error + image" where
  "grid_loop_checked to_rgba frame_width frame_height y_offset spritesheet rows cols new_sheet =
     fold_result
       (\<lambda>row. fold_result
                 (\<lambda>col. process_cell_checked to_rgba frame_width frame_height y_offset
                           spritesheet (row, col))
                 [0..<cols])
       [0..<rows] new_sheet"

text \<open>Where a run stopped: the step of the script that raised.\<close>

datatype step = At_open | At_layout | At_grid | At_save

text \<open>Lines 13 to 32 on the sheet as \<^verbatim>\<open>Image.open\<close> returns it.\<close>

definition realign_checked ::
  "(pixel \<Rightarrow> pixel) \<Rightarrow> nat \<Rightarrow> nat \<Rightarrow> int \<Rightarrow> lazy_image \<Rightarrow> (step \<times> error) + image" where
  "realign_checked to_rgba frame_width frame_height y_offset spritesheet =
     (case lazy_size spritesheet of (sheet_width, sheet_height) \<Rightarrow>
        (case floordiv sheet_width frame_width of
           Inl e \<Rightarrow> Inl (At_layout, e)
         | Inr cols \<Rightarrow>
             (case floordiv sheet_height frame_height of
                Inl e \<Rightarrow> Inl (At_layout, e)
              | Inr rows \<Rightarrow>
                  (case grid_loop_checked to_rgba frame_width frame_height y_offset
                          spritesheet rows cols
                          (Image_new ''RGBA'' (sheet_width, sheet_height) transparent) of
                     Inl e \<Rightarrow> Inl (At_grid, e)
                   | Inr new_sheet \<Rightarrow> Inr new_sheet))))"

text \<open>
  The whole script, lines 12 to 35. A failing run returns the step that raised, its error,
  and the world as the failure leaves it.
\<close>

definition script ::
  "(pixel \<Rightarrow> pixel) \<Rightarrow> nat \<Rightarrow> nat \<Rightarrow> int \<Rightarrow> world \<Rightarrow> ((step \<times> error) + unit) \<times> world" where
  "script to_rgba frame_width frame_height y_offset w =
     (case Image_open_lazy w input_path of
        Inl e \<Rightarrow> (Inl (At_open, e), w)
      | Inr spritesheet \<Rightarrow>
          (case realign_checked to_rgba frame_width frame_height y_offset spritesheet of
             Inl failure \<Rightarrow> (Inl failure, w)
           | Inr new_sheet \<Rightarrow>
               (case save_checked w new_sheet output_path of
                  (Inl e, w') \<Rightarrow> (Inl (At_save, e), w')
                | (Inr u, w') \<Rightarrow>
                    (Inr (),
                     w'\<lparr>console := console w' @
                          [''Spritesheet corregido con offset guardado en: '' @ output_path]\<rparr>))))"

subsection \<open>What the result is compared with\<close>

text \<open>
  A source pixel as it arrives on an RGBA canvas: unchanged from an RGBA sheet, converted
  from a sheet of another mode.
\<close>

definition in_rgba :: "(pixel \<Rightarrow> pixel) \<Rightarrow> image \<Rightarrow> pixel \<Rightarrow> pixel" where
  "in_rgba to_rgba im p = (if mode im = ''RGBA'' then p else to_rgba p)"

text \<open>
  What a processed cell shows at the absolute position \<open>(x, y)\<close>: the source pixel
  \<open>y_offset\<close> rows higher when that row lies in the same cell, the fill colour otherwise.
\<close>

definition shifted_pixel ::
  "(pixel \<Rightarrow> pixel) \<Rightarrow> nat \<Rightarrow> int \<Rightarrow> image \<Rightarrow> int \<times> int \<Rightarrow> pixel option" where
  "shifted_pixel to_rgba frame_height y_offset spritesheet xy =
     (case xy of (x, y) \<Rightarrow>
        if y_offset \<le> y mod int frame_height \<and> y mod int frame_height < y_offset + int frame_height
        then map_option (in_rgba to_rgba spritesheet) (pixel_at spritesheet (x, y - y_offset))
        else Some transparent)"

subsection \<open>Small sheets to run the script on\<close>

text \<open>
  An RGBA sheet of 5 by 7 pixels whose pixel at \<open>(x, y)\<close> is \<open>(x, y, 9, 255)\<close>. With
  frames of 2 by 3 it has two rows of two whole cells, and a remainder of one column
  and one row.
\<close>

definition example_sheet :: image where
  "example_sheet =
     \<lparr>mode = ''RGBA'', xsize = 5, ysize = 7,
      data = map (\<lambda>y. map (\<lambda>x. [int x, int y, 9, 255]) [0..<5]) [0..<7]\<rparr>"

text \<open>An opaque white sheet of exactly one frame of the script's size.\<close>

definition white_frame :: image where
  "white_frame = Image_new ''RGBA'' (146, 64) [255, 255, 255, 255]"

text \<open>A world that holds the example sheet at the input path, and an empty one.\<close>

definition example_world :: world where
  "example_world =
     \<lparr>files = [input_path \<mapsto> Raster example_sheet], writable = (\<lambda>path. True),
      write_failure = (\<lambda>path. (OSError, Unchanged)), console = []\<rparr>"

definition stale_world :: world where
  "stale_world =
     \<lparr>files = [output_path \<mapsto> Raster white_frame], writable = (\<lambda>path. True),
      write_failure = (\<lambda>path. (OSError, Unchanged)), console = []\<rparr>"

text \<open>A world whose input file is an RGB image of 2 by 3 pixels.\<close>

definition rgb_world :: world where
  "rgb_world =
     \<lparr>files = [input_path \<mapsto> Raster (Image_new ''RGB'' (2, 3) [7, 8, 9])],
      writable = (\<lambda>path. True), write_failure = (\<lambda>path. (OSError, Unchanged)),
      console = []\<rparr>"

text \<open>An RGB sheet of one frame of 2 by 3, and what the script makes of it with offset 1.\<close>

definition rgb_sheet :: image where
  "rgb_sheet = Image_new ''RGB'' (2, 3) [7, 8, 9]"

text \<open>Pillow's conversion of an RGB pixel to RGBA: the colour with alpha 255.\<close>

definition rgb_to_rgba :: "pixel \<Rightarrow> pixel" where
  "rgb_to_rgba p = p @ [255]"

definition rgb_sheet_shifted :: image where
  "rgb_sheet_shifted =
     \<lparr>mode = ''RGBA'', xsize = 2, ysize = 3,
      data = [[[0, 0, 0, 0], [0, 0, 0, 0]],
              [[7, 8, 9, 255], [7, 8, 9, 255]],
              [[7, 8, 9, 255], [7, 8, 9, 255]]]\<rparr>"

text \<open>
  A world whose input file is cut short after the header of a 5 by 7 RGBA image and that
  has an older file at the output path; and one whose input file is the example sheet,
  whose output path holds an older file and breaks off the write, leaving a file that is
  no image.
\<close>

definition truncated_world :: world where
  "truncated_world =
     \<lparr>files = [input_path \<mapsto> Truncated ''RGBA'' 5 7, output_path \<mapsto> Raster white_frame],
      writable = (\<lambda>path. True), write_failure = (\<lambda>path. (OSError, Unchanged)),
      console = []\<rparr>"

definition torn_world :: world where
  "torn_world =
     \<lparr>files = [input_path \<mapsto> Raster example_sheet, output_path \<mapsto> Raster white_frame],
      writable = (\<lambda>path. False), write_failure = (\<lambda>path. (OSError, Leaves Other)),
      console = []\<rparr>"

section \<open>Properties of the library calls\<close>


lemma Image_new_sel [simp]:
  "mode (Image_new m (w, h) c) = m"
  "xsize (Image_new m (w, h) c) = w"
  "ysize (Image_new m (w, h) c) = h"
  by (simp_all add: Image_new_def)

lemma wf_Image_new [simp]: "wf_image (Image_new m (w, h) c)"
  by (simp add: wf_image_def Image_new_def list_all_iff)

lemma pixel_at_Image_new:
  "pixel_at (Image_new m (w, h) c) (x, y) =
     (if 0 \<le> x \<and> x < int w \<and> 0 \<le> y \<and> y < int h then Some c else None)"
  by (auto simp add: pixel_at_def Image_new_def nat_less_iff)

lemma crop_sel [simp]:
  "mode (crop im (l, u, r, b)) = mode im"
  "xsize (crop im (l, u, r, b)) = nat (r - l)"
  "ysize (crop im (l, u, r, b)) = nat (b - u)"
  by (simp_all add: crop_def)

lemma wf_crop [simp]: "wf_image (crop im (l, u, r, b))"
  by (simp add: wf_image_def crop_def list_all_iff)

lemma pixel_at_crop:
  "pixel_at (crop im (l, u, r, b)) (x, y) =
     (if 0 \<le> x \<and> x < r - l \<and> 0 \<le> y \<and> y < b - u
      then Some (case pixel_at im (l + x, u + y) of
                   Some p \<Rightarrow> p | None \<Rightarrow> replicate (bands (mode im)) 0)
      else None)"
  by (auto simp add: pixel_at_def crop_def)

lemma convert_sel [simp]:
  "xsize (convert cv m im) = xsize im"
  "ysize (convert cv m im) = ysize im"
  "mode (convert cv m im) = m"
  by (simp_all add: convert_def)

lemma wf_convert [simp]: "wf_image im \<Longrightarrow> wf_image (convert cv m im)"
  by (simp add: wf_image_def convert_def list_all_iff)

lemma pixel_at_convert:
  "wf_image im \<Longrightarrow>
   pixel_at (convert cv m im) xy =
     (if mode im = m then pixel_at im xy else map_option cv (pixel_at im xy))"
  by (cases xy) (auto simp add: pixel_at_def convert_def wf_image_def list_all_iff)

lemma imaging_paste_sel [simp]:
  "mode (imaging_paste imOut imIn pos) = mode imOut"
  "xsize (imaging_paste imOut imIn pos) = xsize imOut"
  "ysize (imaging_paste imOut imIn pos) = ysize imOut"
  by (cases pos; simp add: imaging_paste_def Let_def)+

lemma wf_imaging_paste [simp]:
  "wf_image imOut \<Longrightarrow> wf_image (imaging_paste imOut imIn pos)"
  by (cases pos) (simp add: imaging_paste_def Let_def wf_image_def list_all_iff)

lemma pixel_at_imaging_paste:
  "pixel_at (imaging_paste imOut imIn (bx, by)) (x, y) =
     (if 0 \<le> x \<and> x < int (xsize imOut) \<and> 0 \<le> y \<and> y < int (ysize imOut)
      then (if bx \<le> x \<and> x < bx + int (xsize imIn) \<and> by \<le> y \<and> y < by + int (ysize imIn)
            then pixel_at imIn (x - bx, y - by)
            else pixel_at imOut (x, y))
      else None)"
  by (auto simp add: pixel_at_def imaging_paste_def Let_def)


lemma paste_sel [simp]:
  "mode (paste cv self im pos) = mode self"
  "xsize (paste cv self im pos) = xsize self"
  "ysize (paste cv self im pos) = ysize self"
  by (simp_all add: paste_def)

lemma wf_paste [simp]: "wf_image self \<Longrightarrow> wf_image (paste cv self im pos)"
  by (simp add: paste_def)

lemma pixel_at_paste:
  "wf_image im \<Longrightarrow>
   pixel_at (paste cv self im (bx, by)) (x, y) =
     (if 0 \<le> x \<and> x < int (xsize self) \<and> 0 \<le> y \<and> y < int (ysize self)
      then (if bx \<le> x \<and> x < bx + int (xsize im) \<and> by \<le> y \<and> y < by + int (ysize im)
            then (if mode self \<noteq> mode im then map_option cv (pixel_at im (x - bx, y - by))
                  else pixel_at im (x - bx, y - by))
            else pixel_at self (x, y))
      else None)"
  by (auto simp add: paste_def pixel_at_imaging_paste pixel_at_convert)

lemma pixel_at_crop_inside:
  "0 \<le> l \<Longrightarrow> 0 \<le> u \<Longrightarrow> r \<le> int (xsize im) \<Longrightarrow> b \<le> int (ysize im) \<Longrightarrow>
   pixel_at (crop im (l, u, r, b)) (x, y) =
     (if 0 \<le> x \<and> x < r - l \<and> 0 \<le> y \<and> y < b - u then pixel_at im (l + x, u + y) else None)"
  by (auto simp add: pixel_at_crop pixel_at_def [of im] split: option.splits)

lemma map_option_in_rgba:
  "(if ''RGBA'' \<noteq> mode im then map_option cv q else q) = map_option (in_rgba cv im) q"
  by (cases q) (auto simp add: in_rgba_def)

lemma pixel_at_new_frame:
  assumes "0 \<le> l" "0 \<le> t" "l + int fw \<le> int (xsize src)" "t + int fh \<le> int (ysize src)"
  shows "pixel_at (paste cv (Image_new ''RGBA'' (fw, fh) transparent)
                     (crop src (l, t, l + int fw, t + int fh)) (0, yoff)) (x, y) =
     (if 0 \<le> x \<and> x < int fw \<and> 0 \<le> y \<and> y < int fh
      then (if yoff \<le> y \<and> y < yoff + int fh
            then map_option (in_rgba cv src) (pixel_at src (l + x, t + (y - yoff)))
            else Some transparent)
      else None)"
  using assms
  by (simp add: pixel_at_paste pixel_at_crop_inside pixel_at_Image_new map_option_in_rgba)

lemma process_cell_sel [simp]:
  "mode (process_cell cv fw fh yoff src cell sheet) = mode sheet"
  "xsize (process_cell cv fw fh yoff src cell sheet) = xsize sheet"
  "ysize (process_cell cv fw fh yoff src cell sheet) = ysize sheet"
  by (cases cell; simp add: process_cell_def Let_def)+

lemma wf_process_cell [simp]:
  "wf_image sheet \<Longrightarrow> wf_image (process_cell cv fw fh yoff src cell sheet)"
  by (cases cell) (simp add: process_cell_def Let_def)

lemma pixel_at_process_cell:
  assumes "int (col * fw) + int fw \<le> int (xsize src)"
      and "int (row * fh) + int fh \<le> int (ysize src)"
      and "mode sheet = ''RGBA''"
  shows "pixel_at (process_cell cv fw fh yoff src (row, col) sheet) (x, y) =
     (if 0 \<le> x \<and> x < int (xsize sheet) \<and> 0 \<le> y \<and> y < int (ysize sheet)
      then (if int (col * fw) \<le> x \<and> x < int (col * fw) + int fw \<and>
               int (row * fh) \<le> y \<and> y < int (row * fh) + int fh
            then (if yoff \<le> y - int (row * fh) \<and> y - int (row * fh) < yoff + int fh
                  then map_option (in_rgba cv src) (pixel_at src (x, y - yoff))
                  else Some transparent)
            else pixel_at sheet (x, y))
      else None)"
proof -
  have frame: "pixel_at (paste cv (Image_new ''RGBA'' (fw, fh) transparent)
                     (crop src (int (col * fw), int (row * fh),
                        int (col * fw) + int fw, int (row * fh) + int fh)) (0, yoff)) (x', y') =
     (if 0 \<le> x' \<and> x' < int fw \<and> 0 \<le> y' \<and> y' < int fh
      then (if yoff \<le> y' \<and> y' < yoff + int fh
            then map_option (in_rgba cv src)
                   (pixel_at src (int (col * fw) + x', int (row * fh) + (y' - yoff)))
            else Some transparent)
      else None)" for x' y'
    using assms by (intro pixel_at_new_frame) simp_all
  have eq: "int (row * fh) + (y - int (row * fh) - yoff) = y - yoff"
           "int (col * fw) + (x - int (col * fw)) = x"
    by simp_all
  show ?thesis
    unfolding process_cell_def Let_def prod.case of_nat_add
    using assms(3)
    by (simp only: pixel_at_paste [OF wf_paste [OF wf_Image_new]] paste_sel Image_new_sel frame eq)
       auto
qed


lemma in_cell_iff:
  assumes "0 < n" "0 \<le> x"
  shows "int (k * n) \<le> x \<and> x < int (k * n) + int n \<longleftrightarrow> nat (x div int n) = k"
proof -
  obtain m where x: "x = int m" using assms(2) by (metis nonneg_int_cases)
  have "k * n \<le> m \<and> m < k * n + n \<longleftrightarrow> m div n = k"
  proof
    assume "k * n \<le> m \<and> m < k * n + n"
    then show "m div n = k"
      by (intro div_nat_eqI) (simp_all add: mult.commute)
  next
    assume "m div n = k"
    then show "k * n \<le> m \<and> m < k * n + n"
      using assms(1) dividend_less_div_times [of n m] div_times_less_eq_dividend [of m n]
      by (simp add: add.commute)
  qed
  then show ?thesis
    unfolding x by (simp add: zdiv_int [symmetric] flip: of_nat_add of_nat_mult)
qed

lemma in_cell_mod:
  assumes "0 < n" "nat (x div int n) = k" "0 \<le> x"
  shows "x - int (k * n) = x mod int n"
proof -
  have "0 \<le> x div int n" using assms by (simp add: pos_imp_zdiv_nonneg_iff)
  then have "int k = x div int n" using assms(2) by simp
  then show ?thesis by (simp add: minus_mult_div_eq_mod mult.commute)
qed

section \<open>Properties of the loop\<close>


lemma process_cells_sel [simp]:
  "mode (process_cells cv fw fh yoff src cells sheet) = mode sheet"
  "xsize (process_cells cv fw fh yoff src cells sheet) = xsize sheet"
  "ysize (process_cells cv fw fh yoff src cells sheet) = ysize sheet"
  by (induction cells arbitrary: sheet; simp add: process_cells_def)+

lemma wf_process_cells [simp]:
  "wf_image sheet \<Longrightarrow> wf_image (process_cells cv fw fh yoff src cells sheet)"
  by (induction cells arbitrary: sheet) (simp_all add: process_cells_def)

lemma pixel_at_process_cell_grid:
  assumes "0 < fw" "0 < fh" "row < ysize src div fh" "col < xsize src div fw"
      and "mode sheet = ''RGBA''"
  shows "pixel_at (process_cell cv fw fh yoff src (row, col) sheet) (x, y) =
     (if 0 \<le> x \<and> x < int (xsize sheet) \<and> 0 \<le> y \<and> y < int (ysize sheet)
      then (if (nat (y div int fh), nat (x div int fw)) = (row, col)
            then shifted_pixel cv fh yoff src (x, y)
            else pixel_at sheet (x, y))
      else None)"
proof -
  have "Suc col \<le> xsize src div fw" "Suc row \<le> ysize src div fh"
    using assms(3,4) by simp_all
  then have "Suc col * fw \<le> xsize src" "Suc row * fh \<le> ysize src"
    using less_eq_div_iff_mult_less_eq [OF assms(1)] less_eq_div_iff_mult_less_eq [OF assms(2)]
    by blast+
  then have inside: "int (col * fw) + int fw \<le> int (xsize src)"
                    "int (row * fh) + int fh \<le> int (ysize src)"
    using of_nat_mono [of "Suc col * fw" "xsize src", where 'a = int]
      of_nat_mono [of "Suc row * fh" "ysize src", where 'a = int]
    by (simp_all add: algebra_simps)
  show ?thesis
  proof (cases "0 \<le> x \<and> 0 \<le> y")
    case True
    then show ?thesis
      using in_cell_iff [OF assms(1), of x col] in_cell_iff [OF assms(2), of y row]
        in_cell_mod [OF assms(2), of y row]
      by (simp add: pixel_at_process_cell [OF inside assms(5)] shifted_pixel_def) auto
  next
    case False
    then show ?thesis
      by (auto simp add: pixel_at_process_cell [OF inside assms(5)])
  qed
qed

lemma pixel_at_process_cells:
  assumes "0 < fw" "0 < fh" "mode sheet = ''RGBA''"
      and "\<forall>(row, col) \<in> set cells. row < ysize src div fh \<and> col < xsize src div fw"
  shows "pixel_at (process_cells cv fw fh yoff src cells sheet) (x, y) =
     (if 0 \<le> x \<and> x < int (xsize sheet) \<and> 0 \<le> y \<and> y < int (ysize sheet)
      then (if (nat (y div int fh), nat (x div int fw)) \<in> set cells
            then shifted_pixel cv fh yoff src (x, y)
            else pixel_at sheet (x, y))
      else None)"
  using assms(3,4)
proof (induction cells arbitrary: sheet)
  case Nil
  then show ?case by (simp add: process_cells_def pixel_at_def)
next
  case (Cons c cells)
  obtain row col where c: "c = (row, col)" by (cases c)
  have step: "process_cells cv fw fh yoff src (c # cells) sheet =
              process_cells cv fw fh yoff src cells (process_cell cv fw fh yoff src c sheet)"
    by (simp add: process_cells_def)
  have grid: "row < ysize src div fh" "col < xsize src div fw"
    using Cons.prems(2) c by auto
  have rest: "\<forall>(row, col) \<in> set cells. row < ysize src div fh \<and> col < xsize src div fw"
    using Cons.prems(2) by auto
  have m: "mode (process_cell cv fw fh yoff src c sheet) = ''RGBA''"
    using Cons.prems(1) by simp
  show ?case
    unfolding step Cons.IH [OF m rest]
    by (auto simp add: c pixel_at_process_cell_grid [OF assms(1,2) grid Cons.prems(1)])
qed


lemma fold_rows_cols:
  "fold (\<lambda>row sheet. fold (\<lambda>col. step (row, col)) cs sheet) rs sheet =
   fold step (concat (map (\<lambda>row. map (\<lambda>col. (row, col)) cs) rs)) sheet"
  by (induction rs arbitrary: sheet) (simp_all add: fold_map comp_def)

lemma grid_loop_process_cells:
  "grid_loop cv fw fh yoff src rows cols sheet =
   process_cells cv fw fh yoff src (grid_cells rows cols) sheet"
  by (simp add: grid_loop_def process_cells_def grid_cells_def fold_rows_cols)

lemma set_grid_cells: "(row, col) \<in> set (grid_cells rows cols) \<longleftrightarrow> row < rows \<and> col < cols"
  by (auto simp add: grid_cells_def image_iff)

lemma realign_Inr:
  assumes "0 < fw" "0 < fh"
  shows "realign cv fw fh yoff src =
         Inr (process_cells cv fw fh yoff src
                (grid_cells (ysize src div fh) (xsize src div fw))
                (Image_new ''RGBA'' (xsize src, ysize src) transparent))"
  using assms by (simp add: realign_def floordiv_def Let_def grid_loop_process_cells)

lemma pixel_at_grid:
  assumes "0 < fw" "0 < fh"
  shows "pixel_at (process_cells cv fw fh yoff src
                (grid_cells (ysize src div fh) (xsize src div fw))
                (Image_new ''RGBA'' (xsize src, ysize src) transparent)) (x, y) =
     (if 0 \<le> x \<and> x < int (xsize src) \<and> 0 \<le> y \<and> y < int (ysize src)
      then (if nat (y div int fh) < ysize src div fh \<and> nat (x div int fw) < xsize src div fw
            then shifted_pixel cv fh yoff src (x, y)
            else Some transparent)
      else None)"
proof -
  have grid: "\<forall>(row, col) \<in> set (grid_cells (ysize src div fh) (xsize src div fw)).
                row < ysize src div fh \<and> col < xsize src div fw"
    by (auto simp add: set_grid_cells)
  show ?thesis
    by (simp add: pixel_at_process_cells [OF assms _ grid] set_grid_cells pixel_at_Image_new)
qed

lemma image_eqI:
  assumes "wf_image a" "wf_image b" "mode a = mode b" "xsize a = xsize b" "ysize a = ysize b"
      and px: "\<And>x y. pixel_at a (x, y) = pixel_at b (x, y)"
  shows "a = b"
proof -
  have len: "length (data a) = length (data b)"
    using assms by (simp add: wf_image_def)
  have rows: "data a ! j = data b ! j" if j: "j < length (data a)" for j
  proof (rule nth_equalityI)
    have la: "length (data a ! j) = xsize a"
      using assms(1) j by (simp add: wf_image_def list_all_length)
    have lb: "length (data b ! j) = xsize b"
      using assms(2) j len by (simp add: wf_image_def list_all_length)
    show "length (data a ! j) = length (data b ! j)"
      using la lb assms(4) by simp
    fix i assume "i < length (data a ! j)"
    then have i: "i < xsize a" using la by simp
    have jy: "j < ysize a" using j assms(1) by (simp add: wf_image_def)
    show "data a ! j ! i = data b ! j ! i"
      using px [of "int i" "int j"] i jy assms(4,5) by (simp add: pixel_at_def)
  qed
  have "data a = data b"
    by (rule nth_equalityI) (use len rows in auto)
  then show ?thesis
    using assms(3,4,5) by (simp add: image.equality)
qed


lemma cell_inside:
  assumes "k < m div n" "0 \<le> x" "x < int n"
  shows "0 \<le> int (k * n) + x" "int (k * n) + x < int m" "nat ((int (k * n) + x) div int n) = k"
    "(int (k * n) + x) mod int n = x"
proof -
  have n: "0 < n" using assms(2,3) by simp
  have "Suc k \<le> m div n" using assms(1) by simp
  then have "Suc k * n \<le> m"
    using less_eq_div_iff_mult_less_eq [OF n] by blast
  then have le: "int (k * n) + int n \<le> int m"
    using of_nat_mono [of "Suc k * n" m, where 'a = int] by (simp add: algebra_simps)
  show nonneg: "0 \<le> int (k * n) + x" using assms(2) by simp
  show "int (k * n) + x < int m" using le assms(3) by simp
  show k: "nat ((int (k * n) + x) div int n) = k"
    using in_cell_iff [OF n nonneg, of k] assms(2,3) by simp
  show "(int (k * n) + x) mod int n = x"
    using in_cell_mod [OF n k nonneg] by simp
qed

lemma pixel_at_cell:
  assumes "row < ysize src div fh" "col < xsize src div fw"
      and "0 \<le> x" "x < int fw" "0 \<le> y" "y < int fh"
  shows "pixel_at (process_cells cv fw fh yoff src
                (grid_cells (ysize src div fh) (xsize src div fw))
                (Image_new ''RGBA'' (xsize src, ysize src) transparent))
           (int (col * fw) + x, int (row * fh) + y) =
     (if yoff \<le> y \<and> y < yoff + int fh
      then map_option (in_rgba cv src)
             (pixel_at src (int (col * fw) + x, int (row * fh) + (y - yoff)))
      else Some transparent)"
proof -
  have pos: "0 < fw" "0 < fh" using assms(3-6) by simp_all
  show ?thesis
    using cell_inside [OF assms(2,3,4)] cell_inside [OF assms(1,5,6)] assms(1,2)
    by (auto simp add: pixel_at_grid [OF pos] shifted_pixel_def add_diff_eq)
qed

lemma outside_grid:
  assumes "0 < n" "0 \<le> x"
  shows "nat (x div int n) < m div n \<longleftrightarrow> x < int (m div n * n)"
proof -
  obtain k where x: "x = int k" using assms(2) by (metis nonneg_int_cases)
  have "k div n < m div n \<longleftrightarrow> k < m div n * n"
    using assms(1) by (simp add: div_less_iff_less_mult)
  then show ?thesis
    unfolding x by (simp add: zdiv_int [symmetric] del: of_nat_mult)
qed

lemma run_success:
  assumes "files w input_path = Some (Raster src)" "writable w output_path"
      and "realign cv fw fh yoff src = Inr out"
  shows "run cv fw fh yoff w =
           (Inr (),
            w\<lparr>files := (files w)(output_path \<mapsto> Raster out),
              console := console w @
                [''Spritesheet corregido con offset guardado en: '' @ output_path]\<rparr>)"
  using assms by (simp add: run_def Image_open_def save_def)


lemma alpha_transparent: "alpha transparent = 0"
  by (simp add: alpha_def transparent_def)

lemma realign_wf:
  assumes "realign cv fw fh yoff src = Inr out"
  shows "wf_image out \<and> mode out = ''RGBA'' \<and> xsize out = xsize src \<and> ysize out = ysize src"
proof -
  have pos: "0 < fw" "0 < fh"
    using assms by (auto simp add: realign_def floordiv_def Let_def split: if_splits)
  show ?thesis
    using assms by (auto simp add: realign_Inr [OF pos])
qed

lemma wf_example_sheet: "wf_image example_sheet"
  by (simp add: example_sheet_def wf_image_def list_all_iff)

lemma pixel_at_example_sheet:
  "pixel_at example_sheet (x, y) =
     (if 0 \<le> x \<and> x < 5 \<and> 0 \<le> y \<and> y < 7 then Some [x, y, 9, 255] else None)"
  by (auto simp add: example_sheet_def pixel_at_def nat_less_iff)

section \<open>The script with its failures\<close>

lemma fold_result_Inr:
  assumes "\<And>x s. x \<in> set xs \<Longrightarrow> f x s = Inr (g x s)"
  shows "fold_result f xs s = Inr (fold g xs s)"
  using assms by (induction xs arbitrary: s) simp_all

lemma process_cell_checked_Inr:
  assumes "row < ysize src div fh" "col < xsize src div fw"
      and "- 2147483648 \<le> yoff" "yoff + int fh \<le> 2147483647"
      and "int (xsize src) \<le> 2147483647" "int (ysize src) \<le> 2147483647"
  shows "process_cell_checked cv fw fh yoff (Loadable src) (row, col) sheet =
         Inr (process_cell cv fw fh yoff src (row, col) sheet)"
proof -
  have pos: "0 < fw" "0 < fh"
    using assms(1,2) by (auto intro: gr0I)
  have "Suc col \<le> xsize src div fw" "Suc row \<le> ysize src div fh"
    using assms(1,2) by simp_all
  then have "Suc col * fw \<le> xsize src" "Suc row * fh \<le> ysize src"
    using less_eq_div_iff_mult_less_eq [OF pos(1)] less_eq_div_iff_mult_less_eq [OF pos(2)]
    by blast+
  then have inside: "int (col * fw) + int fw \<le> int (xsize src)"
                    "int (row * fh) + int fh \<le> int (ysize src)"
    using of_nat_mono [of "Suc col * fw" "xsize src", where 'a = int]
      of_nat_mono [of "Suc row * fh" "ysize src", where 'a = int]
    by (simp_all add: algebra_simps)
  have nonneg: "0 \<le> int (col * fw)" "0 \<le> int (row * fh)" "0 \<le> int fw" "0 \<le> int fh"
    by simp_all
  have crop_ok: "crop_checked (Loadable src)
       (int (col * fw), int (row * fh), int (col * fw + fw), int (row * fh + fh)) =
     Inr (crop src (int (col * fw), int (row * fh), int (col * fw + fw), int (row * fh + fh)))"
    using inside nonneg assms(5,6)
    by (simp add: crop_checked_def load_def c_box_def c_int_def del: of_nat_mult)
  have p1: "paste_checked cv (Image_new ''RGBA'' (fw, fh) transparent)
       (crop src (int (col * fw), int (row * fh), int (col * fw + fw), int (row * fh + fh)))
       (0, yoff) =
     Inr (paste cv (Image_new ''RGBA'' (fw, fh) transparent)
       (crop src (int (col * fw), int (row * fh), int (col * fw + fw), int (row * fh + fh)))
       (0, yoff))"
    using inside nonneg assms(3,4,5,6)
    by (simp add: paste_checked_def c_box_def c_int_def del: of_nat_mult)
  have p2: "paste_checked cv sheet im (int (col * fw), int (row * fh)) =
            Inr (paste cv sheet im (int (col * fw), int (row * fh)))"
    if "xsize im = fw" "ysize im = fh" for im
    using inside nonneg assms(5,6) that
    by (simp add: paste_checked_def c_box_def c_int_def del: of_nat_mult)
  show ?thesis
    by (simp add: process_cell_checked_def process_cell_def Let_def crop_ok p1 p2
          del: of_nat_mult of_nat_add)
qed

lemma realign_checked_Inr:
  assumes "0 < fw" "0 < fh"
      and "- 2147483648 \<le> yoff" "yoff + int fh \<le> 2147483647"
      and "int (xsize src) \<le> 2147483647" "int (ysize src) \<le> 2147483647"
  shows "realign_checked cv fw fh yoff (Loadable src) =
         Inr (process_cells cv fw fh yoff src
                (grid_cells (ysize src div fh) (xsize src div fw))
                (Image_new ''RGBA'' (xsize src, ysize src) transparent))"
proof -
  have inner: "fold_result
       (\<lambda>col. process_cell_checked cv fw fh yoff (Loadable src) (row, col))
       [0..<xsize src div fw] s =
     Inr (fold (\<lambda>col. process_cell cv fw fh yoff src (row, col)) [0..<xsize src div fw] s)"
    if "row \<in> set [0..<ysize src div fh]" for row s
    by (rule fold_result_Inr) (use that assms(3-6) in \<open>simp add: process_cell_checked_Inr\<close>)
  have "grid_loop_checked cv fw fh yoff (Loadable src) (ysize src div fh) (xsize src div fw) s =
        Inr (grid_loop cv fw fh yoff src (ysize src div fh) (xsize src div fw) s)" for s
    unfolding grid_loop_checked_def grid_loop_def
    by (rule fold_result_Inr) (rule inner)
  then show ?thesis
    using assms(1,2)
    by (simp add: realign_checked_def lazy_size_def floordiv_def grid_loop_process_cells)
qed

lemma upt_2: "[0..<2] = [0, Suc 0]" "[0..<3] = [0, Suc 0, 2]"
  by (simp_all add: upt_rec numeral_2_eq_2 numeral_3_eq_3)

lemma realign_rgb_sheet:
  "realign rgb_to_rgba 2 3 1 rgb_sheet = Inr rgb_sheet_shifted"
  by code_simp

lemma failing_save_changes_output_file:
  "fst (script id 2 3 1 torn_world) = Inl (At_save, OSError) \<and>
   files (snd (script id 2 3 1 torn_world)) output_path = Some Other \<and>
   files torn_world output_path = Some (Raster white_frame)"
proof -
  obtain out where out: "realign_checked id 2 3 1 (Loadable example_sheet) = Inr out"
    using realign_checked_Inr [of 2 3 1 example_sheet id] by (simp add: example_sheet_def)
  show ?thesis
    by (simp add: script_def Image_open_lazy_def torn_world_def out save_checked_def
          input_path_def output_path_def)
qed

lemma script_agrees_with_run:
  assumes "files w input_path = Some (Raster src)" "writable w output_path"
      and "0 < fw" "0 < fh"
      and "- 2147483648 \<le> yoff" "yoff + int fh \<le> 2147483647"
      and "int (xsize src) \<le> 2147483647" "int (ysize src) \<le> 2147483647"
  shows "fst (script cv fw fh yoff w) = Inr () \<and> fst (run cv fw fh yoff w) = Inr () \<and>
         snd (script cv fw fh yoff w) = snd (run cv fw fh yoff w)"
  using assms(1,2)
  by (simp add: script_def Image_open_lazy_def save_checked_def realign_checked_Inr [OF assms(3-8)]
        run_success [OF assms(1,2) realign_Inr [OF assms(3,4)]])

section \<open>The claims\<close>

text \<open>
  Claim C1, as amended. For every grid cell \<open>(row, col)\<close> with \<open>row < rows\<close> and
  \<open>col < cols\<close>, and every in-cell coordinate \<open>(x, y)\<close> with \<open>0 \<le> x < frame_width\<close> and
  \<open>y_offset \<le> y < frame_height\<close> such that \<open>y - y_offset < frame_height\<close>, the output
  pixel at \<open>(col * frame_width + x, row * frame_height + y)\<close> is the source pixel at
  \<open>(col * frame_width + x, row * frame_height + (y - y_offset))\<close> when the sheet is RGBA,
  and that source pixel converted to RGBA when the sheet has another mode.
\<close>

theorem shifted_rows_copy_source:
  assumes "row < ysize spritesheet div frame_height"
      and "col < xsize spritesheet div frame_width"
      and "0 \<le> x" and "x < int frame_width"
      and "0 \<le> y" and "y_offset \<le> y" and "y < int frame_height"
      and "y - y_offset < int frame_height"
  shows "\<exists>out p. realign to_rgba frame_width frame_height y_offset spritesheet = Inr out \<and>
           pixel_at spritesheet
             (int (col * frame_width) + x, int (row * frame_height) + (y - y_offset)) = Some p \<and>
           pixel_at out (int (col * frame_width) + x, int (row * frame_height) + y) =
             Some (if mode spritesheet = ''RGBA'' then p else to_rgba p)"
proof -
  have pos: "0 < frame_width" "0 < frame_height"
    using assms(3,4,5,7) by simp_all
  have src_row: "0 \<le> y - y_offset" using assms(6) by simp
  obtain p where p: "pixel_at spritesheet
      (int (col * frame_width) + x, int (row * frame_height) + (y - y_offset)) = Some p"
    using cell_inside(1,2) [OF assms(2,3,4)] cell_inside(1,2) [OF assms(1) src_row assms(8)]
    by (simp add: pixel_at_def)
  have "pixel_at (process_cells to_rgba frame_width frame_height y_offset spritesheet
                (grid_cells (ysize spritesheet div frame_height)
                   (xsize spritesheet div frame_width))
                (Image_new ''RGBA'' (xsize spritesheet, ysize spritesheet) transparent))
           (int (col * frame_width) + x, int (row * frame_height) + y) =
        Some (if mode spritesheet = ''RGBA'' then p else to_rgba p)"
    unfolding pixel_at_cell [OF assms(1,2,3,4,5,7)]
    using assms(6,8) p by (simp add: in_rgba_def)
  then show ?thesis
    using p by (simp add: realign_Inr [OF pos])
qed

theorem shifted_rows_copy_source_witness:
  "(0::nat) < ysize rgb_sheet div 3 \<and> (0::nat) < xsize rgb_sheet div 2 \<and>
   (0::int) \<le> 1 \<and> (1::int) < int 2 \<and> (0::int) \<le> 2 \<and> (1::int) \<le> 2 \<and> (2::int) < int 3 \<and>
   (2::int) - 1 < int 3 \<and>
   (\<exists>out. realign rgb_to_rgba 2 3 1 rgb_sheet = Inr out \<and>
      pixel_at rgb_sheet (1, 1) = Some [7, 8, 9] \<and>
      pixel_at out (1, 2) = Some [7, 8, 9, 255])"
  using shifted_rows_copy_source [of 0 rgb_sheet 3 0 2 1 2 1 rgb_to_rgba]
  by (simp add: rgb_sheet_def pixel_at_Image_new rgb_to_rgba_def)

text \<open>
  As the claim was written, with plain equality, it fails on a sheet that is not RGBA:
  on the RGB sheet the output pixel \<open>(7, 8, 9, 255)\<close> is not the source pixel
  \<open>(7, 8, 9)\<close>.
\<close>

theorem shifted_rows_copy_source_counterexample:
  "(0::nat) < ysize rgb_sheet div 3 \<and> (0::nat) < xsize rgb_sheet div 2 \<and>
   (0::int) \<le> 0 \<and> (0::int) < int 2 \<and> (1::int) \<le> 1 \<and> (1::int) < int 3 \<and>
   (1::int) - 1 < int 3 \<and>
   realign rgb_to_rgba 2 3 1 rgb_sheet = Inr rgb_sheet_shifted \<and>
   pixel_at rgb_sheet_shifted (int (0 * 2) + 0, int (0 * 3) + 1) = Some [7, 8, 9, 255] \<and>
   pixel_at rgb_sheet (int (0 * 2) + 0, int (0 * 3) + (1 - 1)) = Some [7, 8, 9] \<and>
   pixel_at rgb_sheet_shifted (int (0 * 2) + 0, int (0 * 3) + 1) \<noteq>
     pixel_at rgb_sheet (int (0 * 2) + 0, int (0 * 3) + (1 - 1))"
  by (simp add: realign_rgb_sheet)
     (simp add: rgb_sheet_def rgb_sheet_shifted_def pixel_at_def Image_new_def)

text \<open>
  Claim C2. For every valid input image (the frame size being positive, as the script's
  146 by 64 is), the script produces an output canvas, and its width and height are
  exactly those of the input image.
\<close>

theorem output_size_equals_input_size:
  assumes "0 < frame_width" and "0 < frame_height"
  shows "\<exists>out. realign to_rgba frame_width frame_height y_offset spritesheet = Inr out \<and>
           xsize out = xsize spritesheet \<and> ysize out = ysize spritesheet \<and> wf_image out"
  by (simp add: realign_Inr [OF assms])

theorem output_size_equals_input_size_witness:
  "(0::nat) < 2 \<and> (0::nat) < 3 \<and>
   (\<exists>out. realign id 2 3 1 example_sheet = Inr out \<and>
      xsize out = 5 \<and> ysize out = 7 \<and> wf_image out)"
  using output_size_equals_input_size [of 2 3 id 1 example_sheet]
  by (simp add: example_sheet_def)

text \<open>
  Claim C3. For every grid cell \<open>(row, col)\<close> with \<open>row < rows\<close> and \<open>col < cols\<close>, every
  output pixel of the cell at an in-cell row \<open>y\<close> with \<open>0 \<le> y < y_offset\<close> is fully
  transparent: it is the fill colour, whose alpha is 0. An in-cell row with
  \<open>y < y_offset\<close> exists only when \<open>y_offset > 0\<close>.
\<close>

theorem top_rows_transparent:
  assumes "row < ysize spritesheet div frame_height"
      and "col < xsize spritesheet div frame_width"
      and "0 \<le> x" and "x < int frame_width"
      and "0 \<le> y" and "y < y_offset" and "y < int frame_height"
  shows "\<exists>out. realign to_rgba frame_width frame_height y_offset spritesheet = Inr out \<and>
           pixel_at out (int (col * frame_width) + x, int (row * frame_height) + y) =
             Some transparent \<and>
           alpha transparent = 0"
proof -
  have pos: "0 < frame_width" "0 < frame_height"
    using assms(3,4,5,7) by simp_all
  have "pixel_at (process_cells to_rgba frame_width frame_height y_offset spritesheet
                (grid_cells (ysize spritesheet div frame_height)
                   (xsize spritesheet div frame_width))
                (Image_new ''RGBA'' (xsize spritesheet, ysize spritesheet) transparent))
           (int (col * frame_width) + x, int (row * frame_height) + y) = Some transparent"
    unfolding pixel_at_cell [OF assms(1,2,3,4,5,7)]
    using assms(6) by simp
  then show ?thesis
    by (simp add: realign_Inr [OF pos] alpha_transparent)
qed

theorem top_rows_transparent_witness:
  "(1::nat) < ysize example_sheet div 3 \<and> (0::nat) < xsize example_sheet div 2 \<and>
   (0::int) \<le> 1 \<and> (1::int) < int 2 \<and> (0::int) \<le> 1 \<and> (1::int) < 2 \<and> (1::int) < int 3 \<and>
   (\<exists>out. realign id 2 3 2 example_sheet = Inr out \<and>
      pixel_at out (1, 4) = Some transparent \<and> alpha transparent = 0)"
  using top_rows_transparent [of 1 example_sheet 3 0 2 1 1 2 id]
  by (simp add: example_sheet_def)

text \<open>
  Claim C4. Only whole frames are processed: the loops run over
  \<open>rows = sheet_height div frame_height\<close> and \<open>cols = sheet_width div frame_width\<close>, and
  every output pixel outside \<open>[0, cols * frame_width) \<times> [0, rows * frame_height)\<close>, the
  strips at the right and at the bottom, is fully transparent.
\<close>

theorem remainder_strips_transparent:
  assumes "0 < frame_width" and "0 < frame_height"
      and "0 \<le> x" and "x < int (xsize spritesheet)"
      and "0 \<le> y" and "y < int (ysize spritesheet)"
      and "int (xsize spritesheet div frame_width * frame_width) \<le> x \<or>
           int (ysize spritesheet div frame_height * frame_height) \<le> y"
  shows "\<exists>out. realign to_rgba frame_width frame_height y_offset spritesheet = Inr out \<and>
           out = grid_loop to_rgba frame_width frame_height y_offset spritesheet
                   (ysize spritesheet div frame_height) (xsize spritesheet div frame_width)
                   (Image_new ''RGBA'' (xsize spritesheet, ysize spritesheet) transparent) \<and>
           pixel_at out (x, y) = Some transparent \<and>
           alpha transparent = 0"
proof -
  have "\<not> (nat (y div int frame_height) < ysize spritesheet div frame_height \<and>
           nat (x div int frame_width) < xsize spritesheet div frame_width)"
    using assms(7) outside_grid [OF assms(1,3), of "xsize spritesheet"]
      outside_grid [OF assms(2,5), of "ysize spritesheet"]
    by auto
  then have "pixel_at (process_cells to_rgba frame_width frame_height y_offset spritesheet
                (grid_cells (ysize spritesheet div frame_height)
                   (xsize spritesheet div frame_width))
                (Image_new ''RGBA'' (xsize spritesheet, ysize spritesheet) transparent))
           (x, y) = Some transparent"
    unfolding pixel_at_grid [OF assms(1,2)]
    using assms(3,4,5,6) by auto
  then show ?thesis
    by (simp add: realign_Inr [OF assms(1,2)] grid_loop_process_cells alpha_transparent)
qed

theorem remainder_strips_transparent_witness:
  "(0::nat) < 2 \<and> (0::nat) < 3 \<and> (0::int) \<le> 4 \<and> (4::int) < int (xsize example_sheet) \<and>
   (0::int) \<le> 2 \<and> (2::int) < int (ysize example_sheet) \<and>
   (int (xsize example_sheet div 2 * 2) \<le> 4 \<or> int (ysize example_sheet div 3 * 3) \<le> 2) \<and>
   (\<exists>out. realign id 2 3 1 example_sheet = Inr out \<and>
      out = grid_loop id 2 3 1 example_sheet 2 2 (Image_new ''RGBA'' (5, 7) transparent) \<and>
      pixel_at out (4, 2) = Some transparent \<and> alpha transparent = 0)"
  using remainder_strips_transparent [of 2 3 4 example_sheet 2 id 1]
  by (simp add: example_sheet_def)

text \<open>
  Claim C5, as amended. For every integer \<open>y_offset\<close> whose paste box fits the library's C
  ints, that is \<open>-2^31 \<le> y_offset\<close> and \<open>y_offset + frame_height \<le> 2^31 - 1\<close>, negative
  offsets and offsets beyond the frame height included, clipping is symmetric and nothing
  wraps around: the output row \<open>y\<close> of a cell shows the source row \<open>y - y_offset\<close> of the
  same cell when that row exists (for a sheet that is not RGBA, converted to RGBA), and is
  fully transparent otherwise. So a source row whose destination falls outside
  \<open>[0, frame_height)\<close> shows nowhere in the cell. The sheet is one whose sizes are C ints,
  as every image of the library is.
\<close>

theorem clipping_is_symmetric:
  assumes "- 2147483648 \<le> y_offset" and "y_offset + int frame_height \<le> 2147483647"
      and "int (xsize spritesheet) \<le> 2147483647" and "int (ysize spritesheet) \<le> 2147483647"
      and "row < ysize spritesheet div frame_height"
      and "col < xsize spritesheet div frame_width"
      and "0 \<le> x" and "x < int frame_width"
      and "0 \<le> y" and "y < int frame_height"
  shows "\<exists>out. realign_checked to_rgba frame_width frame_height y_offset (Loadable spritesheet) =
             Inr out \<and>
           pixel_at out (int (col * frame_width) + x, int (row * frame_height) + y) =
             (if 0 \<le> y - y_offset \<and> y - y_offset < int frame_height
              then map_option (in_rgba to_rgba spritesheet)
                     (pixel_at spritesheet
                        (int (col * frame_width) + x, int (row * frame_height) + (y - y_offset)))
              else Some transparent) \<and>
           alpha transparent = 0"
proof -
  have pos: "0 < frame_width" "0 < frame_height"
    using assms(7,8,9,10) by simp_all
  have "pixel_at (process_cells to_rgba frame_width frame_height y_offset spritesheet
                (grid_cells (ysize spritesheet div frame_height)
                   (xsize spritesheet div frame_width))
                (Image_new ''RGBA'' (xsize spritesheet, ysize spritesheet) transparent))
           (int (col * frame_width) + x, int (row * frame_height) + y) =
             (if 0 \<le> y - y_offset \<and> y - y_offset < int frame_height
              then map_option (in_rgba to_rgba spritesheet)
                     (pixel_at spritesheet
                        (int (col * frame_width) + x, int (row * frame_height) + (y - y_offset)))
              else Some transparent)"
    unfolding pixel_at_cell [OF assms(5,6,7,8,9,10)]
    by (rule if_cong) auto
  then show ?thesis
    by (simp add: realign_checked_Inr [OF pos assms(1,2,3,4)] alpha_transparent)
qed

theorem clipping_is_symmetric_witness:
  "- 2147483648 \<le> (- 2::int) \<and> (- 2::int) + int 3 \<le> 2147483647 \<and>
   int (xsize example_sheet) \<le> 2147483647 \<and> int (ysize example_sheet) \<le> 2147483647 \<and>
   (1::nat) < ysize example_sheet div 3 \<and> (1::nat) < xsize example_sheet div 2 \<and>
   (0::int) \<le> 1 \<and> (1::int) < int 2 \<and> (0::int) \<le> 0 \<and> (0::int) < int 3 \<and>
   (\<exists>out. realign_checked id 2 3 (- 2) (Loadable example_sheet) = Inr out \<and>
      pixel_at out (3, 3) = Some [3, 5, 9, 255] \<and> alpha transparent = 0)"
  using clipping_is_symmetric [of "- 2" 3 example_sheet 1 1 2 1 0 id]
  by (simp add: pixel_at_example_sheet in_rgba_def) (simp add: example_sheet_def)

text \<open>
  As the claim was written, for every integer, it fails: with \<open>y_offset = 2^31\<close> the paste
  of line 29 raises \<^verbatim>\<open>OverflowError\<close> in the first cell, and the run ends there with
  no output.
\<close>

theorem clipping_is_symmetric_counterexample:
  "(0::nat) < ysize example_sheet div 3 \<and> (0::nat) < xsize example_sheet div 2 \<and>
   realign_checked id 2 3 2147483648 (Loadable example_sheet) = Inl (At_grid, OverflowError) \<and>
   script id 2 3 2147483648 example_world = (Inl (At_grid, OverflowError), example_world)"
  by (simp add: script_def Image_open_lazy_def example_world_def realign_checked_def
        lazy_size_def floordiv_def grid_loop_checked_def process_cell_checked_def
        crop_checked_def load_def paste_checked_def c_box_def c_int_def example_sheet_def
        upt_2 Let_def)

text \<open>
  Claim C6. The transform is not idempotent. With the script's frame size and offset
  (146 by 64, offset 5) there is a valid RGBA sheet with opaque content whose output, fed
  to the transform again, gives a different image: the content that the first run moved
  from row 0 to row 5 is at row 10 after the second run, and row 5 is transparent.
\<close>

theorem not_idempotent:
  "\<exists>src out out2.
     wf_image src \<and> mode src = ''RGBA'' \<and>
     realign to_rgba 146 64 5 src = Inr out \<and>
     realign to_rgba 146 64 5 out = Inr out2 \<and>
     out2 \<noteq> out \<and>
     pixel_at out (0, 5) = pixel_at src (0, 0) \<and>
     pixel_at out2 (0, 10) = pixel_at src (0, 0) \<and>
     pixel_at out2 (0, 5) = Some transparent \<and>
     pixel_at out (0, 5) \<noteq> Some transparent"
proof -
  define out where "out = process_cells to_rgba 146 64 5 white_frame
      (grid_cells (ysize white_frame div 64) (xsize white_frame div 146))
      (Image_new ''RGBA'' (xsize white_frame, ysize white_frame) transparent)"
  define out2 where "out2 = process_cells to_rgba 146 64 5 out
      (grid_cells (ysize out div 64) (xsize out div 146))
      (Image_new ''RGBA'' (xsize out, ysize out) transparent)"
  have r1: "realign to_rgba 146 64 5 white_frame = Inr out"
    unfolding out_def by (rule realign_Inr) simp_all
  have r2: "realign to_rgba 146 64 5 out = Inr out2"
    unfolding out2_def by (rule realign_Inr) simp_all
  have sz: "xsize out = 146" "ysize out = 64" "mode out = ''RGBA''"
    by (simp_all add: out_def white_frame_def)
  have src: "pixel_at white_frame (x, y) =
      (if 0 \<le> x \<and> x < 146 \<and> 0 \<le> y \<and> y < 64 then Some [255, 255, 255, 255] else None)" for x y
    by (simp add: white_frame_def pixel_at_Image_new)
  have p1: "pixel_at out (x, y) =
      (if 0 \<le> x \<and> x < 146 \<and> 0 \<le> y \<and> y < 64
       then shifted_pixel to_rgba 64 5 white_frame (x, y) else None)" for x y
    unfolding out_def
    by (subst pixel_at_grid) (auto simp add: white_frame_def nat_less_iff)
  have p2: "pixel_at out2 (x, y) =
      (if 0 \<le> x \<and> x < 146 \<and> 0 \<le> y \<and> y < 64
       then shifted_pixel to_rgba 64 5 out (x, y) else None)" for x y
    unfolding out2_def
    by (subst pixel_at_grid) (auto simp add: sz nat_less_iff)
  have md: "wf_image white_frame" "mode white_frame = ''RGBA''"
    by (simp_all add: white_frame_def)
  have a: "pixel_at out (0, 5) = Some [255, 255, 255, 255]"
    by (simp add: p1 shifted_pixel_def src in_rgba_def md)
  have b: "pixel_at out (0, 0) = Some transparent"
    by (simp add: p1 shifted_pixel_def)
  have c: "pixel_at out2 (0, 5) = Some transparent"
    by (simp add: p2 shifted_pixel_def in_rgba_def sz b)
  have d: "pixel_at out2 (0, 10) = Some [255, 255, 255, 255]"
    by (simp add: p2 shifted_pixel_def in_rgba_def sz a)
  have ne: "out2 \<noteq> out"
    using a c by (auto simp add: transparent_def)
  show ?thesis
    using md r1 r2 ne a c d src [of 0 0]
    by (intro exI [of _ white_frame] exI [of _ out] exI [of _ out2])
      (simp add: transparent_def)
qed

text \<open>
  Claim C7. The output does not depend on the order in which the cells are processed:
  running the loop body over any permutation of the row-major list of cells, each cell
  once, gives the image that the script gives.
\<close>

theorem cell_order_irrelevant:
  assumes "0 < frame_width" and "0 < frame_height"
      and "mset cells =
           mset (grid_cells (ysize spritesheet div frame_height)
                   (xsize spritesheet div frame_width))"
  shows "realign to_rgba frame_width frame_height y_offset spritesheet =
         Inr (process_cells to_rgba frame_width frame_height y_offset spritesheet cells
                (Image_new ''RGBA'' (xsize spritesheet, ysize spritesheet) transparent))"
proof -
  let ?grid = "grid_cells (ysize spritesheet div frame_height) (xsize spritesheet div frame_width)"
  let ?new = "Image_new ''RGBA'' (xsize spritesheet, ysize spritesheet) transparent"
  have set_eq: "set cells = set ?grid"
    using assms(3) by (rule mset_eq_setD)
  have in_grid: "\<forall>(row, col) \<in> set ?grid.
      row < ysize spritesheet div frame_height \<and> col < xsize spritesheet div frame_width"
    by (auto simp add: set_grid_cells)
  then have in_cells: "\<forall>(row, col) \<in> set cells.
      row < ysize spritesheet div frame_height \<and> col < xsize spritesheet div frame_width"
    using set_eq by simp
  have "process_cells to_rgba frame_width frame_height y_offset spritesheet ?grid ?new =
        process_cells to_rgba frame_width frame_height y_offset spritesheet cells ?new"
  proof (rule image_eqI)
    fix x y
    show "pixel_at (process_cells to_rgba frame_width frame_height y_offset spritesheet ?grid ?new)
            (x, y) =
          pixel_at (process_cells to_rgba frame_width frame_height y_offset spritesheet cells ?new)
            (x, y)"
      unfolding pixel_at_process_cells [OF assms(1,2) Image_new_sel(1) in_grid]
        pixel_at_process_cells [OF assms(1,2) Image_new_sel(1) in_cells] set_eq ..
  qed simp_all
  then show ?thesis
    by (simp add: realign_Inr [OF assms(1,2)])
qed

theorem cell_order_irrelevant_witness:
  "(0::nat) < 2 \<and> (0::nat) < 3 \<and>
   mset [(1, 1), (0, 0), (1, 0), (0, 1)] =
     mset (grid_cells (ysize example_sheet div 3) (xsize example_sheet div 2)) \<and>
   realign id 2 3 1 example_sheet =
     Inr (process_cells id 2 3 1 example_sheet [(1, 1), (0, 0), (1, 0), (0, 1)]
            (Image_new ''RGBA'' (xsize example_sheet, ysize example_sheet) transparent))"
proof -
  have g: "grid_cells (ysize example_sheet div 3) (xsize example_sheet div 2) =
           [(0, 0), (0, 1), (1, 0), (1, 1)]"
    by (simp add: example_sheet_def grid_cells_def upt_rec)
  have m: "mset [(1, 1), (0, 0), (1, 0), (0, 1)] =
           mset (grid_cells (ysize example_sheet div 3) (xsize example_sheet div 2))"
    unfolding g by (simp add: add_mset_commute)
  show ?thesis
    using cell_order_irrelevant [of 2 3 "[(1, 1), (0, 0), (1, 0), (0, 1)]" example_sheet id 1] m
    by simp
qed

text \<open>
  Claim C8. Whatever the channel format of the source image, a run that can read the
  sheet and write the output path saves an image in RGBA format, as one raster file at
  the configured output path: the files after the run are the files before it with that
  one path set.
\<close>

theorem saved_image_is_rgba:
  assumes "files w input_path = Some (Raster spritesheet)"
      and "writable w output_path"
      and "0 < frame_width" and "0 < frame_height"
  shows "\<exists>out. fst (run to_rgba frame_width frame_height y_offset w) = Inr () \<and>
           files (snd (run to_rgba frame_width frame_height y_offset w)) =
             (files w)(output_path \<mapsto> Raster out) \<and>
           mode out = ''RGBA''"
proof -
  obtain out where out: "realign to_rgba frame_width frame_height y_offset spritesheet = Inr out"
    using realign_Inr [OF assms(3,4)] by blast
  have "mode out = ''RGBA''"
    using realign_wf [OF out] by simp
  then show ?thesis
    by (auto simp add: run_success [OF assms(1,2) out])
qed

theorem saved_image_is_rgba_witness:
  "files rgb_world input_path = Some (Raster (Image_new ''RGB'' (2, 3) [7, 8, 9])) \<and>
   writable rgb_world output_path \<and> (0::nat) < 2 \<and> (0::nat) < 3 \<and>
   (\<exists>out. fst (run (\<lambda>p. p @ [255]) 2 3 1 rgb_world) = Inr () \<and>
      files (snd (run (\<lambda>p. p @ [255]) 2 3 1 rgb_world)) =
        (files rgb_world)(output_path \<mapsto> Raster out) \<and>
      mode out = ''RGBA'')"
  using saved_image_is_rgba [of rgb_world "Image_new ''RGB'' (2, 3) [7, 8, 9]" 2 3 "\<lambda>p. p @ [255]" 1]
  by (simp add: rgb_world_def)

text \<open>
  Claim C9. If the run fails before the final save step (the source path is missing, the
  file is not an image, the frame size is zero, or a crop or a paste of the grid
  processing raises), the file at the output path is as it was: absent if it was absent,
  the stale one if there was one. A failure of the save step itself can leave another
  file there, see \<open>failing_save_changes_output_file\<close>.
\<close>

theorem failure_before_save_keeps_output_file:
  assumes "script to_rgba frame_width frame_height y_offset w = (Inl (failed_at, e), w')"
      and "failed_at \<noteq> At_save"
  shows "files w' output_path = files w output_path"
  using assms
  by (auto simp add: script_def split: sum.splits prod.splits)

theorem failure_before_save_keeps_output_file_witness:
  "script id 2 3 1 truncated_world =
     (Inl (At_grid, OSError), snd (script id 2 3 1 truncated_world)) \<and>
   At_grid \<noteq> At_save \<and>
   files (snd (script id 2 3 1 truncated_world)) output_path = files truncated_world output_path \<and>
   files truncated_world output_path = Some (Raster white_frame)"
proof -
  have r: "script id 2 3 1 truncated_world =
           (Inl (At_grid, OSError), snd (script id 2 3 1 truncated_world))"
    by (simp add: script_def Image_open_lazy_def truncated_world_def realign_checked_def
          lazy_size_def floordiv_def grid_loop_checked_def process_cell_checked_def
          crop_checked_def load_def upt_2 Let_def input_path_def output_path_def)
  show ?thesis
    using failure_before_save_keeps_output_file [OF r] r
    by (simp add: truncated_world_def)
qed

text \<open>
  Claim C10. If the source image is smaller than one frame in either dimension, so that
  there is no column or no row of whole cells, the run still succeeds and saves an image
  of the source's size in which every pixel is fully transparent.
\<close>

theorem sheet_smaller_than_frame_gives_blank:
  assumes "files w input_path = Some (Raster spritesheet)"
      and "writable w output_path"
      and "0 < frame_width" and "0 < frame_height"
      and "xsize spritesheet < frame_width \<or> ysize spritesheet < frame_height"
  shows "\<exists>out. fst (run to_rgba frame_width frame_height y_offset w) = Inr () \<and>
           files (snd (run to_rgba frame_width frame_height y_offset w)) output_path =
             Some (Raster out) \<and>
           wf_image out \<and> mode out = ''RGBA'' \<and>
           xsize out = xsize spritesheet \<and> ysize out = ysize spritesheet \<and>
           (\<forall>x y. pixel_at out (x, y) =
              (if 0 \<le> x \<and> x < int (xsize spritesheet) \<and> 0 \<le> y \<and> y < int (ysize spritesheet)
               then Some transparent else None)) \<and>
           alpha transparent = 0"
proof -
  let ?out = "process_cells to_rgba frame_width frame_height y_offset spritesheet
                (grid_cells (ysize spritesheet div frame_height)
                   (xsize spritesheet div frame_width))
                (Image_new ''RGBA'' (xsize spritesheet, ysize spritesheet) transparent)"
  have out: "realign to_rgba frame_width frame_height y_offset spritesheet = Inr ?out"
    by (rule realign_Inr [OF assms(3,4)])
  have none: "xsize spritesheet div frame_width = 0 \<or> ysize spritesheet div frame_height = 0"
    using assms(5) by auto
  have px: "pixel_at ?out (x, y) =
      (if 0 \<le> x \<and> x < int (xsize spritesheet) \<and> 0 \<le> y \<and> y < int (ysize spritesheet)
       then Some transparent else None)" for x y
    unfolding pixel_at_grid [OF assms(3,4)] using none by auto
  show ?thesis
    using realign_wf [OF out] px
    by (intro exI [of _ ?out]) (simp add: run_success [OF assms(1,2) out] alpha_transparent)
qed

theorem sheet_smaller_than_frame_gives_blank_witness:
  "files example_world input_path = Some (Raster example_sheet) \<and>
   writable example_world output_path \<and> (0::nat) < 146 \<and> (0::nat) < 64 \<and>
   (xsize example_sheet < 146 \<or> ysize example_sheet < 64) \<and>
   (\<exists>out. fst (recortar_spritesheet id example_world) = Inr () \<and>
      files (snd (recortar_spritesheet id example_world)) output_path = Some (Raster out) \<and>
      wf_image out \<and> mode out = ''RGBA'' \<and> xsize out = 5 \<and> ysize out = 7 \<and>
      pixel_at out (4, 6) = Some transparent \<and> alpha transparent = 0)"
proof -
  obtain out where
    "fst (run id 146 64 5 example_world) = Inr ()"
    "files (snd (run id 146 64 5 example_world)) output_path = Some (Raster out)"
    "wf_image out" "mode out = ''RGBA''"
    "xsize out = xsize example_sheet" "ysize out = ysize example_sheet"
    "\<forall>x y. pixel_at out (x, y) =
       (if 0 \<le> x \<and> x < int (xsize example_sheet) \<and> 0 \<le> y \<and> y < int (ysize example_sheet)
        then Some transparent else None)"
    using sheet_smaller_than_frame_gives_blank [of example_world example_sheet 146 64 id 5]
    by (auto simp add: example_world_def example_sheet_def)
  then show ?thesis
    by (intro conjI exI [of _ out])
      (simp_all add: recortar_spritesheet_def example_world_def example_sheet_def
         alpha_transparent)
qed

end
